theory Spec2Isabelle
  imports Main "HOL-Library.Word"
begin

unbundle bit_operations_syntax

section \<open>Machine types and Go arithmetic\<close>

type_synonym byte = "8 word"
type_synonym uint16 = "16 word"
type_synonym uint32 = "32 word"
type_synonym uint64 = "64 word"

text \<open>
  Go's \<open>/\<close> and \<open>%\<close> on \<open>int\<close> truncate towards zero, HOL's \<open>div\<close> and \<open>mod\<close> round
  down. The divisors of \<open>pcrs.go\<close> are the positive constants 8 and 20.
\<close>

definition go_quo :: "int \<Rightarrow> int \<Rightarrow> int" where
  "go_quo a b = (if 0 \<le> a then a div b else - ((- a) div b))"

definition go_rem :: "int \<Rightarrow> int \<Rightarrow> int" where
  "go_rem a b = a - b * go_quo a b"

section \<open>Errors\<close>

text \<open>
  Every \<open>errors.New\<close> of \<open>pcrs.go\<close> is one constructor; the index is the argument of
  \<open>strconv.Itoa\<close> in the message. An error handed back by the packer or by
  \<open>FetchPCRValues\<close> keeps the callee's message.
\<close>

datatype error =
    CantSetPCR int
  | CantCheckPCR int
  | PcrsNotMultiple
  | PackError string
  | FetchError string

text \<open>The error kinds of the specification (section 7).\<close>

datatype error_kind =
  InvalidIndex | MalformedPcrValues | SerializationFailure | ValueSourceFailure

fun kind_of :: "error \<Rightarrow> error_kind" where
  "kind_of (CantSetPCR i) = InvalidIndex"
| "kind_of (CantCheckPCR i) = InvalidIndex"
| "kind_of PcrsNotMultiple = MalformedPcrValues"
| "kind_of (PackError m) = SerializationFailure"
| "kind_of (FetchError m) = ValueSourceFailure"

section \<open>PCR masks\<close>

text \<open>\<open>const PCRSize int = 20\<close>\<close>

definition PCRSize :: int where
  "PCRSize = 20"

text \<open>
  \<open>type pcrMask [3]byte\<close>: an array of exactly three bytes. The two functions below are
  the array read \<open>pm[k]\<close> and the array write \<open>pm[k] = v\<close> for \<open>k\<close> in 0, 1, 2; Go panics
  on any other index, and \<open>setPCR\<close> and \<open>isPCRSet\<close> only index after their range check
  (lemma \<open>checked_index_in_array\<close>).
\<close>

datatype pcrMask = PcrMask byte byte byte

fun mask_at :: "pcrMask \<Rightarrow> nat \<Rightarrow> byte" where
  "mask_at (PcrMask b0 b1 b2) k = (if k = 0 then b0 else if k = 1 then b1 else b2)"

fun mask_upd :: "pcrMask \<Rightarrow> nat \<Rightarrow> byte \<Rightarrow> pcrMask" where
  "mask_upd (PcrMask b0 b1 b2) k v =
     (if k = 0 then PcrMask v b1 b2 else if k = 1 then PcrMask b0 v b2 else PcrMask b0 b1 v)"

text \<open>The zero value of \<open>pcrMask\<close> (\<open>var mask pcrMask\<close>).\<close>

definition zero_mask :: pcrMask where
  "zero_mask = PcrMask 0 0 0"

text \<open>
  \<open>func (pm *pcrMask) setPCR(i int) error\<close>: the receiver is a pointer, so the model
  returns the mask after the call together with the error (\<open>None\<close> for \<open>nil\<close>).
  Go's \<open>int\<close> is modelled as \<open>int\<close>: the index is only compared with 0 and 24 and,
  once it is in that range, divided by 8.
\<close>

definition setPCR :: "pcrMask \<Rightarrow> int \<Rightarrow> pcrMask \<times> error option" where
  "setPCR pm i =
     (if i \<ge> 24 \<or> i < 0 then (pm, Some (CantSetPCR i))
      else
        (mask_upd pm (nat (go_quo i 8))
           (mask_at pm (nat (go_quo i 8)) OR push_bit (nat (go_rem i 8)) (1 :: byte)),
         None))"

text \<open>\<open>func (pm pcrMask) isPCRSet(i int) (bool, error)\<close>\<close>

definition isPCRSet :: "pcrMask \<Rightarrow> int \<Rightarrow> bool \<times> error option" where
  "isPCRSet pm i =
     (if i \<ge> 24 \<or> i < 0 then (False, Some (CantCheckPCR i))
      else
        (let n = push_bit (nat (go_rem i 8)) (1 :: byte)
         in (mask_at pm (nat (go_quo i 8)) AND n = n, None)))"

text \<open>
  The bit layout of the specification: bit \<open>j\<close> of a mask is the bit at position
  \<open>j mod 8\<close>, counted from the least significant one, of byte \<open>j div 8\<close>.
\<close>

definition mask_bit :: "pcrMask \<Rightarrow> nat \<Rightarrow> bool" where
  "mask_bit pm j = bit (mask_at pm (j div 8)) (j mod 8)"

section \<open>PCR selections\<close>

record pcrSelection =
  Size :: uint16
  Mask :: pcrMask

text \<open>
  The loop \<open>for _, v := range xs { if err := m.setPCR(v); err != nil { return nil, err } }\<close>
  of \<open>newPCRSelection\<close> and \<open>newPCRInfoLong\<close>: \<open>Inl\<close> is the early return, \<open>Inr\<close> the mask
  when the loop ends.
\<close>

fun setPCR_each :: "pcrMask \<Rightarrow> int list \<Rightarrow> error + pcrMask" where
  "setPCR_each pm [] = Inr pm"
| "setPCR_each pm (v # vs) =
     (case setPCR pm v of
        (pm', Some err) \<Rightarrow> Inl err
      | (pm', None) \<Rightarrow> setPCR_each pm' vs)"

definition newPCRSelection :: "int list \<Rightarrow> error + pcrSelection" where
  "newPCRSelection pcrVals =
     (let pcrs = \<lparr>Size = 3, Mask = zero_mask\<rparr>
      in case setPCR_each (Mask pcrs) pcrVals of
           Inl err \<Rightarrow> Inl err
         | Inr m \<Rightarrow> Inr (pcrs\<lparr>Mask := m\<rparr>))"

section \<open>SHA-1\<close>

text \<open>
  \<open>sha1.Sum\<close> of Go's \<open>crypto/sha1\<close>, as FIPS 180-4 defines it: the message is padded to
  a multiple of 64 bytes, each 64-byte block is expanded to 80 words and run through
  80 rounds, and the five chaining words are written out big-endian.
\<close>

definition rotl :: "nat \<Rightarrow> uint32 \<Rightarrow> uint32" where
  "rotl n x = push_bit n x OR drop_bit (32 - n) x"

definition be16_bytes :: "uint16 \<Rightarrow> byte list" where
  "be16_bytes w = [ucast (drop_bit 8 w), ucast w]"

definition be32_bytes :: "uint32 \<Rightarrow> byte list" where
  "be32_bytes w = [ucast (drop_bit 24 w), ucast (drop_bit 16 w), ucast (drop_bit 8 w), ucast w]"

definition be64_bytes :: "uint64 \<Rightarrow> byte list" where
  "be64_bytes w =
     [ucast (drop_bit 56 w), ucast (drop_bit 48 w), ucast (drop_bit 40 w), ucast (drop_bit 32 w),
      ucast (drop_bit 24 w), ucast (drop_bit 16 w), ucast (drop_bit 8 w), ucast w]"

definition be32_word :: "byte list \<Rightarrow> uint32" where
  "be32_word bs = fold (\<lambda>b acc. push_bit 8 acc OR ucast b) bs 0"

definition sha1_pad :: "byte list \<Rightarrow> byte list" where
  "sha1_pad m =
     m @ [0x80] @ replicate ((119 - length m mod 64) mod 64) 0
       @ be64_bytes (word_of_nat (8 * length m))"

definition sha1_f :: "nat \<Rightarrow> uint32 \<Rightarrow> uint32 \<Rightarrow> uint32 \<Rightarrow> uint32" where
  "sha1_f t b c d =
     (if t < 20 then (b AND c) OR (NOT b AND d)
      else if t < 40 then b XOR c XOR d
      else if t < 60 then (b AND c) OR (b AND d) OR (c AND d)
      else b XOR c XOR d)"

definition sha1_k :: "nat \<Rightarrow> uint32" where
  "sha1_k t =
     (if t < 20 then 0x5A827999
      else if t < 40 then 0x6ED9EBA1
      else if t < 60 then 0x8F1BBCDC
      else 0xCA62C1D6)"

definition sha1_schedule :: "byte list \<Rightarrow> uint32 list" where
  "sha1_schedule blk =
     fold (\<lambda>t w. w @ [rotl 1 (w ! (t - 3) XOR w ! (t - 8) XOR w ! (t - 14) XOR w ! (t - 16))])
       [16..<80]
       (map (\<lambda>i. be32_word (take 4 (drop (4 * i) blk))) [0..<16])"

type_synonym sha1_state = "uint32 \<times> uint32 \<times> uint32 \<times> uint32 \<times> uint32"

definition sha1_init :: sha1_state where
  "sha1_init = (0x67452301, 0xEFCDAB89, 0x98BADCFE, 0x10325476, 0xC3D2E1F0)"

definition sha1_round :: "uint32 list \<Rightarrow> nat \<Rightarrow> sha1_state \<Rightarrow> sha1_state" where
  "sha1_round w t s =
     (case s of (a, b, c, d, e) \<Rightarrow>
        (rotl 5 a + sha1_f t b c d + e + sha1_k t + w ! t, a, rotl 30 b, c, d))"

definition sha1_block :: "byte list \<Rightarrow> sha1_state \<Rightarrow> sha1_state" where
  "sha1_block blk s =
     (case s of (h0, h1, h2, h3, h4) \<Rightarrow>
        (case fold (sha1_round (sha1_schedule blk)) [0..<80] s of
           (a, b, c, d, e) \<Rightarrow> (h0 + a, h1 + b, h2 + c, h3 + d, h4 + e)))"

definition sha1_Sum :: "byte list \<Rightarrow> byte list" where
  "sha1_Sum m =
     (let p = sha1_pad m
      in case fold sha1_block (map (\<lambda>k. take 64 (drop (64 * k) p)) [0..<length p div 64])
                sha1_init of
           (h0, h1, h2, h3, h4) \<Rightarrow> concat (map be32_bytes [h0, h1, h2, h3, h4]))"

section \<open>The composite digest\<close>

text \<open>
  Diagnostic logging through \<open>glog\<close>: the process-wide verbosity that \<open>glog.V\<close> reads and
  the lines written so far. A logged line is kept as the values its format string prints.
\<close>

datatype log_entry =
    LogCompositeBuffer pcrMask "byte list"
  | LogCompositeHash "byte list"
  | LogMask pcrMask
  | LogPcrVals "byte list"
  | LogCreated uint16 byte byte pcrSelection pcrSelection "byte list" "byte list"

record glog =
  verbosity :: int
  entries :: "log_entry list"

definition glog_V :: "glog \<Rightarrow> int \<Rightarrow> bool" where
  "glog_V g level = (level \<le> verbosity g)"

definition glog_Info :: "glog \<Rightarrow> log_entry \<Rightarrow> glog" where
  "glog_Info g e = g\<lparr>entries := entries g @ [e]\<rparr>"

text \<open>
  The packer \<open>pack\<close> is called on the two-element list \<open>{pcrSelection{3, mask}, pcrs}\<close>
  and returns the bytes or an error. The functions of \<open>pcrs.go\<close> take it as a parameter.
\<close>

type_synonym packer = "pcrSelection \<Rightarrow> byte list \<Rightarrow> string + byte list"

text \<open>The three bytes of a mask, in array order.\<close>

fun mask_bytes :: "pcrMask \<Rightarrow> byte list" where
  "mask_bytes (PcrMask b0 b1 b2) = [b0, b1, b2]"

text \<open>
  Modelled from the spec: the structure packer \<open>pack\<close>, which is not in \<open>pcrs.go\<close>.
  Sections 4.3 and 6 give the bytes it produces for a selection and a value blob: the
  2-byte size, the 3 mask bytes, the 4-byte length of the blob and the blob itself, all
  big-endian, with no padding. A length that does not fit 4 bytes is cut to its low 32 bits.
\<close>

definition pack :: packer where
  "pack sel pcrs =
     Inr (be16_bytes (Size sel) @ mask_bytes (Mask sel)
            @ be32_bytes (word_of_nat (length pcrs)) @ pcrs)"

text \<open>The number a byte string denotes when it is read in big-endian order.\<close>

definition be_nat :: "byte list \<Rightarrow> nat" where
  "be_nat bs = foldl (\<lambda>acc b. 256 * acc + unat b) 0 bs"

text \<open>
  \<open>func createPCRComposite(mask pcrMask, pcrs []byte) ([]byte, error)\<close>, with the packer
  and the logger's state made explicit; the logger's state after the call is returned too.
  The HOL constant \<open>mask\<close> is taken, so the parameter \<open>mask\<close> is written \<open>pmask\<close>.
\<close>

definition createPCRComposite ::
  "packer \<Rightarrow> glog \<Rightarrow> pcrMask \<Rightarrow> byte list \<Rightarrow> (error + byte list) \<times> glog" where
  "createPCRComposite packer g pmask pcrs =
     (if go_rem (int (length pcrs)) PCRSize \<noteq> 0 then (Inl PcrsNotMultiple, g)
      else
        (case packer \<lparr>Size = 3, Mask = pmask\<rparr> pcrs of
           Inl msg \<Rightarrow> (Inl (PackError msg), g)
         | Inr b \<Rightarrow>
             (let g1 = (if glog_V g 2 then glog_Info g (LogCompositeBuffer pmask b) else g);
                  h = sha1_Sum b;
                  g2 = (if glog_V g1 2 then glog_Info g1 (LogCompositeHash h) else g1)
              in (Inr h, g2))))"

section \<open>PCR info records\<close>

text \<open>
  Modelled from the spec: the type \<open>digest\<close>, declared outside \<open>pcrs.go\<close>. Section 3:
  a digest is a 20-byte SHA-1 output. Its zero value is twenty zero bytes.
\<close>

definition zero_digest :: "byte list" where
  "zero_digest = replicate 20 0"

record pcrInfoLong =
  Tag :: uint16
  LocAtCreation :: byte
  LocAtRelease :: byte
  PCRsAtCreation :: pcrSelection
  PCRsAtRelease :: pcrSelection
  DigestAtCreation :: "byte list"
  DigestAtRelease :: "byte list"

text \<open>Go's builtin \<open>copy(dst, src)\<close>: the first \<open>min(len(dst), len(src))\<close> bytes are copied.\<close>

definition copy_bytes :: "byte list \<Rightarrow> byte list \<Rightarrow> byte list" where
  "copy_bytes dst src =
     (let n = min (length dst) (length src) in take n src @ drop n dst)"

definition log_created :: "pcrInfoLong \<Rightarrow> log_entry" where
  "log_created pcri =
     LogCreated (Tag pcri) (LocAtCreation pcri) (LocAtRelease pcri) (PCRsAtCreation pcri)
       (PCRsAtRelease pcri) (DigestAtCreation pcri) (DigestAtRelease pcri)"

text \<open>
  \<open>func createPCRInfoLong(loc byte, mask pcrMask, pcrVals []byte) (*pcrInfoLong, error)\<close>.
  The constant \<open>tagPCRInfoLong\<close> is declared outside \<open>pcrs.go\<close> and is a parameter here.
  In \<open>byte(1 << loc)\<close> the constant 1 takes the type \<open>byte\<close>, and Go's shift by a count of
  8 or more gives 0.
\<close>

definition createPCRInfoLong ::
  "uint16 \<Rightarrow> packer \<Rightarrow> glog \<Rightarrow> byte \<Rightarrow> pcrMask \<Rightarrow> byte list
     \<Rightarrow> (error + pcrInfoLong) \<times> glog" where
  "createPCRInfoLong tagPCRInfoLong packer g loc pmask pcrVals =
     (case createPCRComposite packer g pmask pcrVals of
        (Inl err, g1) \<Rightarrow> (Inl err, g1)
      | (Inr d, g1) \<Rightarrow>
          (let locVal = push_bit (unat loc) (1 :: byte);
               pcri = \<lparr>Tag = tagPCRInfoLong,
                        LocAtCreation = locVal,
                        LocAtRelease = locVal,
                        PCRsAtCreation = \<lparr>Size = 3, Mask = pmask\<rparr>,
                        PCRsAtRelease = \<lparr>Size = 3, Mask = pmask\<rparr>,
                        DigestAtCreation = zero_digest,
                        DigestAtRelease = zero_digest\<rparr>;
               pcri1 = pcri\<lparr>DigestAtRelease := copy_bytes (DigestAtRelease pcri) d\<rparr>;
               pcri2 = pcri1\<lparr>DigestAtCreation := copy_bytes (DigestAtCreation pcri1) d\<rparr>;
               g2 = (if glog_V g1 2 then glog_Info g1 (log_created pcri2) else g1)
           in (Inr pcri2, g2)))"

text \<open>
  \<open>func newPCRInfoLong(f *os.File, loc byte, pcrNums []int) (*pcrInfoLong, error)\<close>.
  \<open>FetchPCRValues(f, pcrNums)\<close> reads the device behind \<open>f\<close>; what it returns for the
  indices is the parameter \<open>fetch\<close>.
\<close>

type_synonym fetcher = "int list \<Rightarrow> string + byte list"

definition newPCRInfoLong ::
  "uint16 \<Rightarrow> packer \<Rightarrow> fetcher \<Rightarrow> glog \<Rightarrow> byte \<Rightarrow> int list
     \<Rightarrow> (error + pcrInfoLong) \<times> glog" where
  "newPCRInfoLong tagPCRInfoLong packer fetch g loc pcrNums =
     (case setPCR_each zero_mask pcrNums of
        Inl err \<Rightarrow> (Inl err, g)
      | Inr pmask \<Rightarrow>
          (let g1 = (if glog_V g 2 then glog_Info g (LogMask pmask) else g)
           in case fetch pcrNums of
                Inl msg \<Rightarrow> (Inl (FetchError msg), g1)
              | Inr pcrVals \<Rightarrow>
                  (let g2 = (if glog_V g1 2 then glog_Info g1 (LogPcrVals pcrVals) else g1)
                   in createPCRInfoLong tagPCRInfoLong packer g2 loc pmask pcrVals)))"

section \<open>Arithmetic and bit lemmas\<close>

lemma go_quo_nonneg [simp]: "0 \<le> a \<Longrightarrow> go_quo a b = a div b"
  by (simp add: go_quo_def)

lemma go_rem_nonneg [simp]: "0 \<le> a \<Longrightarrow> go_rem a b = a mod b"
  by (simp add: go_rem_def minus_mult_div_eq_mod)

lemma checked_index_in_array:
  assumes "\<not> (i \<ge> 24 \<or> i < 0)"
  shows "nat (go_quo i 8) < 3 \<and> nat (go_rem i 8) < 8"
proof -
  from assms have "0 \<le> i" "i < 24" by simp_all
  then have "i div 8 < 3" "0 \<le> i div 8" "i mod 8 < 8" "0 \<le> i mod 8" by presburger+
  with \<open>0 \<le> i\<close> show ?thesis by (simp add: nat_less_iff)
qed

section \<open>The mask operations\<close>

lemma mask_at_upd: "k < 3 \<Longrightarrow> k' < 3 \<Longrightarrow> mask_at (mask_upd pm k v) k' = (if k' = k then v else mask_at pm k')"
  by (cases pm) auto

lemma bit_or_one_hot: "m < 8 \<Longrightarrow> n < 8 \<Longrightarrow> bit (x OR push_bit m (1::byte)) n = (n = m \<or> bit x n)"
  by (auto simp add: bit_simps)

lemma bit_or_exp: "m < 8 \<Longrightarrow> n < 8 \<Longrightarrow> bit (x OR (2::byte) ^ m) n = (n = m \<or> bit x n)"
  using bit_or_one_hot [of m n x] by simp

lemma and_one_hot_eq:
  assumes "m < 8"
  shows "(x AND push_bit m (1::byte) = push_bit m 1) = bit x m"
proof
  assume "x AND push_bit m (1::byte) = push_bit m 1"
  then have "bit (x AND push_bit m (1::byte)) m = bit (push_bit m (1::byte)) m" by simp
  with assms show "bit x m" by (simp add: bit_simps)
next
  assume "bit x m"
  show "x AND push_bit m (1::byte) = push_bit m 1"
  proof (rule bit_eqI)
    fix n
    show "bit (x AND push_bit m (1::byte)) n = bit (push_bit m (1::byte)) n"
      using \<open>bit x m\<close> by (auto simp add: bit_simps)
  qed
qed

lemma and_exp_eq: "m < 8 \<Longrightarrow> (x AND (2::byte) ^ m = 2 ^ m) = bit x m"
  using and_one_hot_eq [of m x] by simp

lemma byte_ext: "(\<And>n. n < 8 \<Longrightarrow> bit (a::byte) n = bit b n) \<Longrightarrow> a = b"
  by (rule bit_eqI) (auto simp: bit_simps dest: bit_imp_le_length)

lemma mask_ext:
  assumes "\<And>j. j < 24 \<Longrightarrow> mask_bit a j = mask_bit b j"
  shows "a = b"
proof (cases a; cases b)
  fix a0 a1 a2 b0 b1 b2
  assume a: "a = PcrMask a0 a1 a2" and b: "b = PcrMask b0 b1 b2"
  have "a0 = b0"
  proof (rule byte_ext)
    fix n :: nat assume "n < 8"
    then show "bit a0 n = bit b0 n" using assms [of n] by (simp add: mask_bit_def a b)
  qed
  moreover have "a1 = b1"
  proof (rule byte_ext)
    fix n :: nat assume "n < 8"
    then have "(8 + n) div 8 = 1" "(8 + n) mod 8 = n" by presburger+
    with \<open>n < 8\<close> show "bit a1 n = bit b1 n" using assms [of "8 + n"] by (simp add: mask_bit_def a b)
  qed
  moreover have "a2 = b2"
  proof (rule byte_ext)
    fix n :: nat assume "n < 8"
    then have "(16 + n) div 8 = 2" "(16 + n) mod 8 = n" by presburger+
    with \<open>n < 8\<close> show "bit a2 n = bit b2 n" using assms [of "16 + n"] by (simp add: mask_bit_def a b)
  qed
  ultimately show ?thesis by (simp add: a b)
qed


lemma setPCR_bad: "i < 0 \<or> 24 \<le> i \<Longrightarrow> setPCR pm i = (pm, Some (CantSetPCR i))"
  by (auto simp: setPCR_def)

lemma setPCR_ok_snd: "0 \<le> i \<Longrightarrow> i < 24 \<Longrightarrow> snd (setPCR pm i) = None"
  by (simp add: setPCR_def)

lemma nat_index_split:
  assumes "0 \<le> i" "i < 24" "j < 24"
  shows "(j = nat i) = (j div 8 = nat (i div 8) \<and> j mod 8 = nat (i mod 8))"
proof -
  have "nat (i div 8) = nat i div 8" "nat (i mod 8) = nat i mod 8"
    using assms(1) by (simp_all add: nat_div_distrib nat_mod_distrib)
  then show ?thesis
    by (metis div_mult_mod_eq)
qed

lemma setPCR_ok_bits:
  assumes "0 \<le> i" "i < 24" "j < 24"
  shows "mask_bit (fst (setPCR pm i)) j = (j = nat i \<or> mask_bit pm j)"
proof -
  have r: "nat (i div 8) < 3" "nat (i mod 8) < 8"
    using checked_index_in_array [of i] assms by simp_all
  have j: "j div 8 < 3" "j mod 8 < 8" using assms(3) by simp_all
  show ?thesis
    using assms r j
    by (auto simp add: setPCR_def mask_bit_def mask_at_upd bit_or_exp
          nat_index_split [OF assms])
qed

lemma isPCRSet_ok: "0 \<le> i \<Longrightarrow> i < 24 \<Longrightarrow> isPCRSet pm i = (mask_bit pm (nat i), None)"
  using checked_index_in_array [of i]
  by (simp add: isPCRSet_def Let_def and_exp_eq mask_bit_def nat_div_distrib nat_mod_distrib)

lemma isPCRSet_bad: "i < 0 \<or> 24 \<le> i \<Longrightarrow> isPCRSet pm i = (False, Some (CantCheckPCR i))"
  by (auto simp: isPCRSet_def)

text \<open>
  Claim C3. For an index \<open>i\<close> with \<open>0 \<le> i < 24\<close>, \<open>setPCR\<close> returns no error and the new
  mask has bit \<open>nat i\<close> set and every other of its 24 bits as before, where bit \<open>j\<close> is
  position \<open>j mod 8\<close> of byte \<open>j div 8\<close>; \<open>isPCRSet\<close> returns that bit, and returns true
  after \<open>setPCR\<close>. For any other index both functions return their error, of kind
  \<open>InvalidIndex\<close>, and \<open>setPCR\<close> leaves the mask as it was.
\<close>

theorem setPCR_isPCRSet_bit_layout:
  "(0 \<le> i \<and> i < 24 \<longrightarrow>
      snd (setPCR pm i) = None \<and>
      (\<forall>j<24. mask_bit (fst (setPCR pm i)) j = (j = nat i \<or> mask_bit pm j)) \<and>
      isPCRSet pm i = (mask_bit pm (nat i), None) \<and>
      isPCRSet (fst (setPCR pm i)) i = (True, None)) \<and>
   (i < 0 \<or> 24 \<le> i \<longrightarrow>
      setPCR pm i = (pm, Some (CantSetPCR i)) \<and>
      kind_of (CantSetPCR i) = InvalidIndex \<and>
      isPCRSet pm i = (False, Some (CantCheckPCR i)) \<and>
      kind_of (CantCheckPCR i) = InvalidIndex)"
proof (intro conjI impI)
  assume ok: "0 \<le> i \<and> i < 24"
  then show "snd (setPCR pm i) = None" by (simp add: setPCR_ok_snd)
  from ok show "\<forall>j<24. mask_bit (fst (setPCR pm i)) j = (j = nat i \<or> mask_bit pm j)"
    by (simp add: setPCR_ok_bits)
  from ok show "isPCRSet pm i = (mask_bit pm (nat i), None)" by (simp add: isPCRSet_ok)
  from ok have "nat i < 24" by linarith
  with ok show "isPCRSet (fst (setPCR pm i)) i = (True, None)"
    by (simp add: isPCRSet_ok setPCR_ok_bits)
next
  assume bad: "i < 0 \<or> 24 \<le> i"
  then show "setPCR pm i = (pm, Some (CantSetPCR i))" by (rule setPCR_bad)
  from bad show "isPCRSet pm i = (False, Some (CantCheckPCR i))" by (rule isPCRSet_bad)
qed simp_all

theorem setPCR_isPCRSet_bit_layout_witness:
  "snd (setPCR (PcrMask 1 0 0x80) 17) = None \<and>
   fst (setPCR (PcrMask 1 0 0x80) 17) = PcrMask 1 0 0x82 \<and>
   mask_bit (fst (setPCR (PcrMask 1 0 0x80) 17)) 17 \<and>
   mask_bit (fst (setPCR (PcrMask 1 0 0x80) 17)) 16 = mask_bit (PcrMask 1 0 0x80) 16 \<and>
   isPCRSet (PcrMask 1 0 0x80) 17 = (False, None) \<and>
   isPCRSet (fst (setPCR (PcrMask 1 0 0x80) 17)) 17 = (True, None) \<and>
   setPCR (PcrMask 1 0 0x80) 24 = (PcrMask 1 0 0x80, Some (CantSetPCR 24)) \<and>
   isPCRSet (PcrMask 1 0 0x80) (- 1) = (False, Some (CantCheckPCR (- 1)))"
  using setPCR_isPCRSet_bit_layout [of 17 "PcrMask 1 0 0x80"]
    setPCR_isPCRSet_bit_layout [of 24 "PcrMask 1 0 0x80"]
    setPCR_isPCRSet_bit_layout [of "- 1" "PcrMask 1 0 0x80"]
  by (simp add: setPCR_def mask_bit_def)

section \<open>Building a mask from a list of indices\<close>

lemma setPCR_each_step:
  "0 \<le> x \<Longrightarrow> x < 24 \<Longrightarrow> setPCR_each pm (x # xs) = setPCR_each (fst (setPCR pm x)) xs"
  by (simp add: setPCR_def)

lemma setPCR_each_good:
  "\<forall>v\<in>set xs. 0 \<le> v \<and> v < 24 \<Longrightarrow>
   \<exists>pm'. setPCR_each pm xs = Inr pm' \<and>
     (\<forall>j<24. mask_bit pm' j = (int j \<in> set xs \<or> mask_bit pm j))"
proof (induction xs arbitrary: pm)
  case Nil
  then show ?case by simp
next
  case (Cons x xs)
  then have x: "0 \<le> x" "x < 24" and xs: "\<forall>v\<in>set xs. 0 \<le> v \<and> v < 24" by simp_all
  from Cons.IH [OF xs, of "fst (setPCR pm x)"] obtain pm' where
    r: "setPCR_each (fst (setPCR pm x)) xs = Inr pm'" and
    b: "\<forall>j<24. mask_bit pm' j = (int j \<in> set xs \<or> mask_bit (fst (setPCR pm x)) j)"
    by blast
  have "setPCR_each pm (x # xs) = Inr pm'"
    using r by (simp only: setPCR_each_step [OF x])
  moreover have "\<forall>j<24. mask_bit pm' j = (int j \<in> set (x # xs) \<or> mask_bit pm j)"
  proof (intro allI impI)
    fix j :: nat assume j: "j < 24"
    have "(j = nat x) = (int j = x)" using x by auto
    with b j setPCR_ok_bits [OF x j, of pm]
    show "mask_bit pm' j = (int j \<in> set (x # xs) \<or> mask_bit pm j)" by auto
  qed
  ultimately show ?case by blast
qed

lemma setPCR_each_first_bad:
  "\<forall>v\<in>set good. 0 \<le> v \<and> v < 24 \<Longrightarrow> k < 0 \<or> 24 \<le> k \<Longrightarrow>
   setPCR_each pm (good @ k # rest) = Inl (CantSetPCR k)"
proof (induction good arbitrary: pm)
  case Nil
  then show ?case by (simp add: setPCR_bad)
next
  case (Cons x xs)
  then have x: "0 \<le> x" "x < 24" by simp_all
  from Cons have "setPCR_each (fst (setPCR pm x)) (xs @ k # rest) = Inl (CantSetPCR k)"
    by simp
  then show ?case by (simp only: append_Cons setPCR_each_step [OF x])
qed

text \<open>
  Claim C4. When every index of the list is in \<open>[0, 24)\<close>, \<open>newPCRSelection\<close> returns a
  selection, and its size is 3. When the list is \<open>good @ k # rest\<close> with every index of
  \<open>good\<close> in range and \<open>k\<close> out of range, so that \<open>k\<close> is the first out-of-range index,
  the result is the error for \<open>k\<close>, of kind \<open>InvalidIndex\<close>, and no selection: the bits set
  for \<open>good\<close> are not returned. Every list with an out-of-range index fails in this way.
\<close>

theorem newPCRSelection_all_or_nothing:
  "((\<forall>v\<in>set pcrVals. 0 \<le> v \<and> v < 24) \<longrightarrow>
      (\<exists>pcrs. newPCRSelection pcrVals = Inr pcrs \<and> Size pcrs = 3)) \<and>
   ((\<forall>v\<in>set good. 0 \<le> v \<and> v < 24) \<and> (k < 0 \<or> 24 \<le> k) \<longrightarrow>
      newPCRSelection (good @ k # rest) = Inl (CantSetPCR k) \<and>
      kind_of (CantSetPCR k) = InvalidIndex) \<and>
   ((\<exists>v\<in>set pcrVals. v < 0 \<or> 24 \<le> v) \<longrightarrow>
      (\<exists>k. (k < 0 \<or> 24 \<le> k) \<and> newPCRSelection pcrVals = Inl (CantSetPCR k)))"
proof (intro conjI impI)
  assume "\<forall>v\<in>set pcrVals. 0 \<le> v \<and> v < 24"
  from setPCR_each_good [OF this, of zero_mask]
  show "\<exists>pcrs. newPCRSelection pcrVals = Inr pcrs \<and> Size pcrs = 3"
    by (auto simp add: newPCRSelection_def)
next
  assume "(\<forall>v\<in>set good. 0 \<le> v \<and> v < 24) \<and> (k < 0 \<or> 24 \<le> k)"
  then show "newPCRSelection (good @ k # rest) = Inl (CantSetPCR k)"
    by (simp add: newPCRSelection_def setPCR_each_first_bad)
next
  show "kind_of (CantSetPCR k) = InvalidIndex" by simp
next
  assume "\<exists>v\<in>set pcrVals. v < 0 \<or> 24 \<le> v"
  then obtain ys k zs where
    s: "pcrVals = ys @ k # zs" and k: "k < 0 \<or> 24 \<le> k" and
    ys: "\<forall>v\<in>set ys. \<not> (v < 0 \<or> 24 \<le> v)"
    using split_list_first_prop [of pcrVals "\<lambda>v. v < 0 \<or> 24 \<le> v"] by blast
  from ys have "\<forall>v\<in>set ys. 0 \<le> v \<and> v < 24" by auto
  with k s have "newPCRSelection pcrVals = Inl (CantSetPCR k)"
    by (simp add: newPCRSelection_def setPCR_each_first_bad)
  with k show "\<exists>k. (k < 0 \<or> 24 \<le> k) \<and> newPCRSelection pcrVals = Inl (CantSetPCR k)"
    by blast
qed

theorem newPCRSelection_all_or_nothing_witness:
  "newPCRSelection [0, 17, 23] = Inr \<lparr>Size = 3, Mask = PcrMask 1 0 0x82\<rparr> \<and>
   newPCRSelection ([0, 17] @ 24 # [23, - 1]) = Inl (CantSetPCR 24) \<and>
   kind_of (CantSetPCR 24) = InvalidIndex \<and>
   (\<exists>k. (k < 0 \<or> 24 \<le> k) \<and> newPCRSelection [0, 17, 24, 23, - 1] = Inl (CantSetPCR k))"
  using newPCRSelection_all_or_nothing [of "[0, 17, 23]" "[0, 17]" 24 "[23, - 1]"]
    newPCRSelection_all_or_nothing [of "[0, 17, 24, 23, - 1]" "[]" "- 1" "[]"]
  by (simp add: newPCRSelection_def setPCR_def zero_mask_def)

lemma setPCR_each_Inr_good:
  "setPCR_each pm xs = Inr pm' \<Longrightarrow> \<forall>v\<in>set xs. 0 \<le> v \<and> v < 24"
proof (rule ccontr)
  assume r: "setPCR_each pm xs = Inr pm'" and "\<not> (\<forall>v\<in>set xs. 0 \<le> v \<and> v < 24)"
  then have "\<exists>v\<in>set xs. v < 0 \<or> 24 \<le> v" by fastforce
  then obtain ys k zs where
    s: "xs = ys @ k # zs" and k: "k < 0 \<or> 24 \<le> k" and
    ys: "\<forall>v\<in>set ys. \<not> (v < 0 \<or> 24 \<le> v)"
    using split_list_first_prop [of xs "\<lambda>v. v < 0 \<or> 24 \<le> v"] by blast
  from ys have "\<forall>v\<in>set ys. 0 \<le> v \<and> v < 24" by auto
  from setPCR_each_first_bad [OF this k, of pm zs] r s show False by simp
qed

lemma setPCR_each_set_eq:
  assumes "set xs = set ys" "setPCR_each pm xs = Inr pm'"
  shows "setPCR_each pm ys = Inr pm'"
proof -
  have gx: "\<forall>v\<in>set xs. 0 \<le> v \<and> v < 24" using assms(2) by (rule setPCR_each_Inr_good)
  then have gy: "\<forall>v\<in>set ys. 0 \<le> v \<and> v < 24" using assms(1) by simp
  from setPCR_each_good [OF gx, of pm] assms(2)
  have bx: "\<forall>j<24. mask_bit pm' j = (int j \<in> set xs \<or> mask_bit pm j)" by auto
  from setPCR_each_good [OF gy, of pm] obtain pm'' where
    ry: "setPCR_each pm ys = Inr pm''" and
    bits_y: "\<forall>j<24. mask_bit pm'' j = (int j \<in> set ys \<or> mask_bit pm j)" by blast
  have "pm'' = pm'"
    by (rule mask_ext) (simp add: bx bits_y assms(1))
  with ry show ?thesis by simp
qed

text \<open>
  Claim C8. The selection a successful \<open>newPCRSelection\<close> returns depends only on the set
  of the indices: a list with the same set of indices, in any order and with any
  repetitions, succeeds too and returns the same selection.
\<close>

theorem newPCRSelection_set_only:
  "set xs = set ys \<Longrightarrow> newPCRSelection xs = Inr s \<Longrightarrow> newPCRSelection ys = Inr s"
  by (auto simp add: newPCRSelection_def split: sum.splits dest: setPCR_each_set_eq)

theorem newPCRSelection_set_only_witness:
  "set [0, 17, 23 :: int] = set [23, 0, 17] \<and>
   newPCRSelection [0, 17, 23] = Inr \<lparr>Size = 3, Mask = PcrMask 1 0 0x82\<rparr> \<and>
   newPCRSelection [23, 0, 17] = Inr \<lparr>Size = 3, Mask = PcrMask 1 0 0x82\<rparr> \<and>
   set [5 :: int] = set [5, 5] \<and>
   newPCRSelection [5] = Inr \<lparr>Size = 3, Mask = PcrMask 0x20 0 0\<rparr> \<and>
   newPCRSelection [5, 5] = Inr \<lparr>Size = 3, Mask = PcrMask 0x20 0 0\<rparr>"
proof -
  have a: "set [0, 17, 23 :: int] = set [23, 0, 17]" by auto
  have b: "newPCRSelection [0, 17, 23] = Inr \<lparr>Size = 3, Mask = PcrMask 1 0 0x82\<rparr>"
    by (simp add: newPCRSelection_def setPCR_def zero_mask_def)
  have c: "set [5 :: int] = set [5, 5]" by simp
  have d: "newPCRSelection [5] = Inr \<lparr>Size = 3, Mask = PcrMask 0x20 0 0\<rparr>"
    by (simp add: newPCRSelection_def setPCR_def zero_mask_def)
  show ?thesis
    using a b c d newPCRSelection_set_only [OF a b] newPCRSelection_set_only [OF c d]
    by simp
qed

section \<open>The composite digest\<close>

lemma sha1_Sum_length: "length (sha1_Sum m) = 20"
  by (simp add: sha1_Sum_def Let_def be32_bytes_def split: prod.splits)

lemma not_multiple_iff: "(go_rem (int n) PCRSize \<noteq> 0) = (n mod 20 \<noteq> 0)"
proof -
  have "int n mod 20 = int (n mod 20)" by (simp add: zmod_int)
  then show ?thesis by (simp add: PCRSize_def)
qed

lemma be16_bytes_3: "be16_bytes 3 = [0, 3]"
  by (simp add: be16_bytes_def)

lemma createPCRComposite_bad:
  "length pcrs mod 20 \<noteq> 0 \<Longrightarrow> createPCRComposite packer g pmask pcrs = (Inl PcrsNotMultiple, g)"
  using not_multiple_iff [of "length pcrs"] by (simp add: createPCRComposite_def)

lemma createPCRComposite_fst:
  "fst (createPCRComposite packer g pmask pcrs) =
     (if length pcrs mod 20 \<noteq> 0 then Inl PcrsNotMultiple
      else case packer \<lparr>Size = 3, Mask = pmask\<rparr> pcrs of
             Inl msg \<Rightarrow> Inl (PackError msg)
           | Inr b \<Rightarrow> Inr (sha1_Sum b))"
  using not_multiple_iff [of "length pcrs"]
  by (simp add: createPCRComposite_def Let_def split: sum.splits)



lemma unat_ucast_drop_bit_32:
  "unat (ucast (drop_bit k (w :: uint32)) :: byte) = unat w div 2 ^ k mod 256"
proof -
  have "unat (ucast (drop_bit k w) :: byte) = take_bit 8 (drop_bit k (unat w))"
    by (simp only: unsigned_ucast_eq unat_drop_bit_eq) simp
  then show ?thesis by (simp add: take_bit_eq_mod drop_bit_eq_div)
qed

lemma be_nat_be32_bytes: "be_nat (be32_bytes w) = unat w"
proof -
  define n where "n = unat w"
  define a1 where "a1 = n div 256"
  define a2 where "a2 = a1 div 256"
  define a3 where "a3 = a2 div 256"
  have "n < 2 ^ 32" unfolding n_def using unsigned_less [of w] by simp
  then have "a3 < 256" unfolding a3_def a2_def a1_def by simp
  have d1: "n div 2 ^ 8 = a1" by (simp add: a1_def)
  have d2: "n div 2 ^ 16 = a2" by (simp add: a2_def a1_def div_mult2_eq)
  have d3: "n div 2 ^ 24 = a3" by (simp add: a3_def a2_def a1_def div_mult2_eq)
  have "be_nat (be32_bytes w) =
          256 * (256 * (256 * (a3 mod 256) + a2 mod 256) + a1 mod 256) + n mod 256"
    unfolding be_nat_def be32_bytes_def
    using unat_ucast_drop_bit_32 [of 24 w] unat_ucast_drop_bit_32 [of 16 w]
      unat_ucast_drop_bit_32 [of 8 w] unat_ucast_drop_bit_32 [of 0 w] d1 d2 d3
    by (simp add: n_def)
  also have "a3 mod 256 = a3" using \<open>a3 < 256\<close> by simp
  also have "256 * a3 + a2 mod 256 = a2" by (simp add: a3_def)
  also have "256 * a2 + a1 mod 256 = a1" by (simp add: a2_def)
  also have "256 * a1 + n mod 256 = n" by (simp add: a1_def)
  finally show ?thesis by (simp add: n_def)
qed


lemma pack_layout:
  "pack \<lparr>Size = 3, Mask = PcrMask b0 b1 b2\<rparr> pcrs =
     Inr ([0, 3] @ [b0, b1, b2] @ be32_bytes (word_of_nat (length pcrs)) @ pcrs)"
  by (simp add: pack_def be16_bytes_3)

lemma be32_bytes_length: "length (be32_bytes w) = 4"
  by (simp add: be32_bytes_def)

text \<open>
  Claim C2. For every mask \<open>b0 b1 b2\<close> and every \<open>pcrs\<close> whose length is a multiple of 20,
  \<open>createPCRComposite\<close> with the packer of the specification returns the SHA-1 of a buffer
  of \<open>9 + length pcrs\<close> bytes: two bytes that read 3 in big-endian order, the three mask
  bytes, four bytes that read the length of \<open>pcrs\<close> (its low 32 bits) in big-endian order,
  and \<open>pcrs\<close> itself. The digest returned has 20 bytes.
\<close>

theorem createPCRComposite_buffer_layout:
  assumes "length pcrs mod 20 = 0"
  shows "\<exists>buf. fst (createPCRComposite pack g (PcrMask b0 b1 b2) pcrs) = Inr (sha1_Sum buf) \<and>
           buf = [0, 3] @ [b0, b1, b2] @ be32_bytes (word_of_nat (length pcrs)) @ pcrs \<and>
           length buf = 9 + length pcrs \<and>
           be_nat (take 2 buf) = 3 \<and>
           take 3 (drop 2 buf) = [b0, b1, b2] \<and>
           be_nat (take 4 (drop 5 buf)) = length pcrs mod 2 ^ 32 \<and>
           drop 9 buf = pcrs \<and>
           length (sha1_Sum buf) = 20"
proof -
  define buf where
    "buf = [0, 3] @ [b0, b1, b2] @ be32_bytes (word_of_nat (length pcrs)) @ pcrs"
  have "fst (createPCRComposite pack g (PcrMask b0 b1 b2) pcrs) = Inr (sha1_Sum buf)"
    using assms by (simp add: createPCRComposite_fst pack_layout buf_def)
  moreover have "length buf = 9 + length pcrs"
    by (simp add: buf_def be32_bytes_length)
  moreover have "be_nat (take 2 buf) = 3"
    by (simp add: buf_def be_nat_def)
  moreover have "take 3 (drop 2 buf) = [b0, b1, b2]"
    by (simp add: buf_def)
  moreover have "take 4 (drop 5 buf) = be32_bytes (word_of_nat (length pcrs))"
    by (simp add: buf_def be32_bytes_length)
  then have "be_nat (take 4 (drop 5 buf)) = length pcrs mod 2 ^ 32"
    by (simp add: be_nat_be32_bytes unat_of_nat)
  moreover have "drop 9 buf = pcrs"
    by (simp add: buf_def be32_bytes_length)
  ultimately show ?thesis
    using sha1_Sum_length [of buf] buf_def by blast
qed

theorem createPCRComposite_buffer_layout_witness:
  "length (replicate 40 (7 :: byte)) mod 20 = 0 \<and>
   fst (createPCRComposite pack \<lparr>verbosity = 0, entries = []\<rparr> (PcrMask 1 0 0x82)
          (replicate 40 7)) =
     Inr (sha1_Sum ([0, 3, 1, 0, 0x82, 0, 0, 0, 0x28] @ replicate 40 7)) \<and>
   length (sha1_Sum ([0, 3, 1, 0, 0x82, 0, 0, 0, 0x28] @ replicate 40 (7 :: byte))) = 20"
proof -
  have h: "length (replicate 40 (7 :: byte)) mod 20 = 0" by simp
  show ?thesis
    using h createPCRComposite_buffer_layout [OF h, of "\<lparr>verbosity = 0, entries = []\<rparr>" 1 0 "0x82"]
    by (simp add: be32_bytes_def)
qed

text \<open>
  Claim C5. For every packer, logger state, mask and \<open>pcrs\<close>, \<open>createPCRComposite\<close>
  returns an error of kind \<open>MalformedPcrValues\<close> exactly when the length of \<open>pcrs\<close> is not
  a multiple of 20; it is then the error of the length check, with no digest, and nothing
  is logged.
\<close>

theorem createPCRComposite_malformed_iff:
  "((\<exists>e. fst (createPCRComposite packer g pmask pcrs) = Inl e \<and> kind_of e = MalformedPcrValues)
      = (length pcrs mod 20 \<noteq> 0)) \<and>
   (length pcrs mod 20 \<noteq> 0 \<longrightarrow>
      createPCRComposite packer g pmask pcrs = (Inl PcrsNotMultiple, g))"
proof (intro conjI impI)
  show "(\<exists>e. fst (createPCRComposite packer g pmask pcrs) = Inl e \<and> kind_of e = MalformedPcrValues)
          = (length pcrs mod 20 \<noteq> 0)"
    by (auto simp add: createPCRComposite_fst split: sum.splits)
next
  assume "length pcrs mod 20 \<noteq> 0"
  then show "createPCRComposite packer g pmask pcrs = (Inl PcrsNotMultiple, g)"
    by (rule createPCRComposite_bad)
qed

theorem createPCRComposite_malformed_iff_witness:
  "createPCRComposite pack \<lparr>verbosity = 2, entries = []\<rparr> (PcrMask 1 0 0x82) (replicate 19 0)
     = (Inl PcrsNotMultiple, \<lparr>verbosity = 2, entries = []\<rparr>) \<and>
   createPCRComposite pack \<lparr>verbosity = 2, entries = []\<rparr> (PcrMask 1 0 0x82) (replicate 21 0)
     = (Inl PcrsNotMultiple, \<lparr>verbosity = 2, entries = []\<rparr>) \<and>
   \<not> (\<exists>e. fst (createPCRComposite pack \<lparr>verbosity = 2, entries = []\<rparr> (PcrMask 1 0 0x82)
                 (replicate 20 0)) = Inl e \<and> kind_of e = MalformedPcrValues)"
  using
    createPCRComposite_malformed_iff
      [of pack "\<lparr>verbosity = 2, entries = []\<rparr>" "PcrMask 1 0 0x82" "replicate 19 0"]
    createPCRComposite_malformed_iff
      [of pack "\<lparr>verbosity = 2, entries = []\<rparr>" "PcrMask 1 0 0x82" "replicate 21 0"]
    createPCRComposite_malformed_iff
      [of pack "\<lparr>verbosity = 2, entries = []\<rparr>" "PcrMask 1 0 0x82" "replicate 20 0"]
  by simp

text \<open>
  Claim C1, as amended. The indices 0, 17 and 23 give the mask bytes \<open>01 00 82\<close>: index 17
  is bit 1 of byte 2, as index 23 is bit 7 of byte 2. With that mask and 60 zero bytes,
  \<open>createPCRComposite\<close> with the packer of the specification returns the SHA-1 of a buffer
  of 69 bytes, \<open>00 03 01 00 82 00 00 00 3C\<close> followed by 60 zero bytes.
\<close>

theorem known_vector_0_17_23:
  "newPCRSelection [0, 17, 23] = Inr \<lparr>Size = 3, Mask = PcrMask 0x01 0x00 0x82\<rparr> \<and>
   mask_bytes (PcrMask 0x01 0x00 0x82) = [0x01, 0x00, 0x82] \<and>
   fst (createPCRComposite pack g (PcrMask 0x01 0x00 0x82) (replicate 60 0)) =
     Inr (sha1_Sum ([0x00, 0x03, 0x01, 0x00, 0x82, 0x00, 0x00, 0x00, 0x3C] @ replicate 60 0)) \<and>
   length ([0x00, 0x03, 0x01, 0x00, 0x82, 0x00, 0x00, 0x00, 0x3C] @ replicate 60 (0 :: byte)) = 69"
proof (intro conjI)
  show "newPCRSelection [0, 17, 23] = Inr \<lparr>Size = 3, Mask = PcrMask 0x01 0x00 0x82\<rparr>"
    by (simp add: newPCRSelection_def setPCR_def zero_mask_def)
  show "fst (createPCRComposite pack g (PcrMask 0x01 0x00 0x82) (replicate 60 0)) =
     Inr (sha1_Sum ([0x00, 0x03, 0x01, 0x00, 0x82, 0x00, 0x00, 0x00, 0x3C] @ replicate 60 0))"
    by (simp add: createPCRComposite_fst pack_layout be32_bytes_def)
qed simp_all

text \<open>
  The mask bytes \<open>01 02 80\<close> of the claim are not those of the indices 0, 17 and 23: in
  that mask index 17 is not set, and index 9 is.
\<close>

theorem known_vector_mask_counterexample:
  "newPCRSelection [0, 17, 23] \<noteq> Inr \<lparr>Size = 3, Mask = PcrMask 0x01 0x02 0x80\<rparr> \<and>
   isPCRSet (PcrMask 0x01 0x02 0x80) 17 = (False, None) \<and>
   isPCRSet (PcrMask 0x01 0x02 0x80) 9 = (True, None) \<and>
   fst (createPCRComposite pack \<lparr>verbosity = 0, entries = []\<rparr> (PcrMask 0x01 0x00 0x82)
          (replicate 60 0)) =
     Inr (sha1_Sum ([0x00, 0x03, 0x01, 0x00, 0x82, 0x00, 0x00, 0x00, 0x3C] @ replicate 60 0)) \<and>
   [0x00, 0x03, 0x01, 0x00, 0x82, 0x00, 0x00, 0x00, 0x3C :: byte]
     \<noteq> [0x00, 0x03, 0x01, 0x02, 0x80, 0x00, 0x00, 0x00, 0x3C]"
proof (intro conjI)
  show "newPCRSelection [0, 17, 23] \<noteq> Inr \<lparr>Size = 3, Mask = PcrMask 0x01 0x02 0x80\<rparr>"
    by (simp add: newPCRSelection_def setPCR_def zero_mask_def)
  show "isPCRSet (PcrMask 0x01 0x02 0x80) 17 = (False, None)"
    by (simp add: isPCRSet_def)
  show "isPCRSet (PcrMask 0x01 0x02 0x80) 9 = (True, None)"
    by (simp add: isPCRSet_def)
  show "fst (createPCRComposite pack \<lparr>verbosity = 0, entries = []\<rparr> (PcrMask 0x01 0x00 0x82)
          (replicate 60 0)) =
     Inr (sha1_Sum ([0x00, 0x03, 0x01, 0x00, 0x82, 0x00, 0x00, 0x00, 0x3C] @ replicate 60 0))"
    by (simp add: createPCRComposite_fst pack_layout be32_bytes_def)
qed simp

section \<open>Logging\<close>

lemma createPCRComposite_snd:
  "snd (createPCRComposite packer g pmask pcrs) =
     (if length pcrs mod 20 \<noteq> 0 then g
      else case packer \<lparr>Size = 3, Mask = pmask\<rparr> pcrs of
             Inl msg \<Rightarrow> g
           | Inr b \<Rightarrow>
               if 2 \<le> verbosity g
               then g\<lparr>entries := entries g @ [LogCompositeBuffer pmask b, LogCompositeHash (sha1_Sum b)]\<rparr>
               else g)"
  using not_multiple_iff [of "length pcrs"]
  by (simp add: createPCRComposite_def Let_def glog_V_def glog_Info_def split: sum.splits)

lemma createPCRComposite_logs:
  "\<exists>new. snd (createPCRComposite packer g pmask pcrs) = g\<lparr>entries := entries g @ new\<rparr>"
proof (cases "snd (createPCRComposite packer g pmask pcrs) = g")
  case True
  then have "snd (createPCRComposite packer g pmask pcrs) = g\<lparr>entries := entries g @ []\<rparr>"
    by simp
  then show ?thesis by blast
next
  case False
  then show ?thesis
    by (auto simp add: createPCRComposite_snd split: if_splits sum.splits)
qed

lemma createPCRComposite_fst_indep:
  "fst (createPCRComposite packer g pmask pcrs) = fst (createPCRComposite packer g' pmask pcrs)"
  by (simp add: createPCRComposite_fst)

text \<open>
  Claim C9. The result of \<open>createPCRComposite\<close> is a function of the packer, the mask and
  \<open>pcrs\<close> alone: two calls return the same digest or the same error whatever the state of
  the logger is at each of them. The only state the call touches is the logger's: its
  verbosity is kept, lines are only appended, and below verbosity 2 it is left as it was.
\<close>

theorem createPCRComposite_deterministic:
  "fst (createPCRComposite packer g pmask pcrs) = fst (createPCRComposite packer g' pmask pcrs) \<and>
   (\<exists>new. snd (createPCRComposite packer g pmask pcrs) = g\<lparr>entries := entries g @ new\<rparr>) \<and>
   (verbosity g < 2 \<longrightarrow> snd (createPCRComposite packer g pmask pcrs) = g)"
proof (intro conjI impI)
  show "fst (createPCRComposite packer g pmask pcrs) = fst (createPCRComposite packer g' pmask pcrs)"
    by (rule createPCRComposite_fst_indep)
  show "\<exists>new. snd (createPCRComposite packer g pmask pcrs) = g\<lparr>entries := entries g @ new\<rparr>"
    by (rule createPCRComposite_logs)
next
  assume "verbosity g < 2"
  then show "snd (createPCRComposite packer g pmask pcrs) = g"
    by (simp add: createPCRComposite_snd split: sum.splits)
qed

theorem createPCRComposite_deterministic_witness:
  "fst (createPCRComposite pack \<lparr>verbosity = 0, entries = []\<rparr> (PcrMask 1 0 0x82) (replicate 20 0))
     = fst (createPCRComposite pack \<lparr>verbosity = 2, entries = [LogMask (PcrMask 1 0 0x82)]\<rparr>
              (PcrMask 1 0 0x82) (replicate 20 0)) \<and>
   snd (createPCRComposite pack \<lparr>verbosity = 0, entries = []\<rparr> (PcrMask 1 0 0x82) (replicate 20 0))
     = \<lparr>verbosity = 0, entries = []\<rparr>"
  using createPCRComposite_deterministic
    [of pack "\<lparr>verbosity = 0, entries = []\<rparr>" "PcrMask 1 0 0x82" "replicate 20 0"
        "\<lparr>verbosity = 2, entries = [LogMask (PcrMask 1 0 0x82)]\<rparr>"]
  by simp

section \<open>PCR info records\<close>

lemma createPCRComposite_Inr_length:
  "fst (createPCRComposite packer g pmask pcrs) = Inr d \<Longrightarrow> length d = 20"
  by (auto simp add: createPCRComposite_fst sha1_Sum_length split: if_splits sum.splits)

lemma copy_bytes_zero_digest: "length d = 20 \<Longrightarrow> copy_bytes zero_digest d = d"
  by (simp add: copy_bytes_def zero_digest_def)

lemma createPCRInfoLong_Inl:
  "fst (createPCRComposite packer g pmask pcrVals) = Inl e \<Longrightarrow>
   fst (createPCRInfoLong tagPCRInfoLong packer g loc pmask pcrVals) = Inl e"
  by (cases "createPCRComposite packer g pmask pcrVals") (simp add: createPCRInfoLong_def)

lemma createPCRInfoLong_Inr:
  assumes "fst (createPCRComposite packer g pmask pcrVals) = Inr d"
  shows "fst (createPCRInfoLong tagPCRInfoLong packer g loc pmask pcrVals) =
           Inr \<lparr>Tag = tagPCRInfoLong,
                LocAtCreation = push_bit (unat loc) 1,
                LocAtRelease = push_bit (unat loc) 1,
                PCRsAtCreation = \<lparr>Size = 3, Mask = pmask\<rparr>,
                PCRsAtRelease = \<lparr>Size = 3, Mask = pmask\<rparr>,
                DigestAtCreation = d,
                DigestAtRelease = d\<rparr>"
proof -
  have "length d = 20" using assms by (rule createPCRComposite_Inr_length)
  then have c: "copy_bytes zero_digest d = d" by (rule copy_bytes_zero_digest)
  show ?thesis
    using assms
    by (cases "createPCRComposite packer g pmask pcrVals")
      (simp add: createPCRInfoLong_def Let_def c del: push_bit_of_1)
qed

text \<open>
  Claim C6. When the composite digest of the mask and the values is \<open>d\<close>,
  \<open>createPCRInfoLong\<close> returns a record with both locations \<open>byte(1 << loc)\<close>, both
  selections \<open>{3, mask}\<close> and both digests \<open>d\<close>. When the digest step returns an error,
  \<open>createPCRInfoLong\<close> returns that error and no record.
\<close>

theorem createPCRInfoLong_record:
  "(fst (createPCRComposite packer g pmask pcrVals) = Inr d \<longrightarrow>
      (\<exists>pcri. fst (createPCRInfoLong tagPCRInfoLong packer g loc pmask pcrVals) = Inr pcri \<and>
         LocAtCreation pcri = push_bit (unat loc) 1 \<and>
         LocAtRelease pcri = push_bit (unat loc) 1 \<and>
         PCRsAtCreation pcri = \<lparr>Size = 3, Mask = pmask\<rparr> \<and>
         PCRsAtRelease pcri = \<lparr>Size = 3, Mask = pmask\<rparr> \<and>
         DigestAtCreation pcri = d \<and>
         DigestAtRelease pcri = d)) \<and>
   (fst (createPCRComposite packer g pmask pcrVals) = Inl e \<longrightarrow>
      fst (createPCRInfoLong tagPCRInfoLong packer g loc pmask pcrVals) = Inl e)"
proof (intro conjI impI)
  assume "fst (createPCRComposite packer g pmask pcrVals) = Inr d"
  from createPCRInfoLong_Inr [OF this, of tagPCRInfoLong loc]
  show "\<exists>pcri. fst (createPCRInfoLong tagPCRInfoLong packer g loc pmask pcrVals) = Inr pcri \<and>
         LocAtCreation pcri = push_bit (unat loc) 1 \<and>
         LocAtRelease pcri = push_bit (unat loc) 1 \<and>
         PCRsAtCreation pcri = \<lparr>Size = 3, Mask = pmask\<rparr> \<and>
         PCRsAtRelease pcri = \<lparr>Size = 3, Mask = pmask\<rparr> \<and>
         DigestAtCreation pcri = d \<and>
         DigestAtRelease pcri = d"
    by simp
next
  assume "fst (createPCRComposite packer g pmask pcrVals) = Inl e"
  then show "fst (createPCRInfoLong tagPCRInfoLong packer g loc pmask pcrVals) = Inl e"
    by (rule createPCRInfoLong_Inl)
qed

lemma composite_20_zero:
  "fst (createPCRComposite pack g (PcrMask 1 0 0x82) (replicate 20 0)) =
     Inr (sha1_Sum ([0, 3, 1, 0, 0x82, 0, 0, 0, 0x14] @ replicate 20 0))"
  by (simp add: createPCRComposite_fst pack_layout be32_bytes_def)

theorem createPCRInfoLong_record_witness:
  "fst (createPCRComposite pack \<lparr>verbosity = 0, entries = []\<rparr> (PcrMask 1 0 0x82) (replicate 20 0))
     = Inr (sha1_Sum ([0, 3, 1, 0, 0x82, 0, 0, 0, 0x14] @ replicate 20 0)) \<and>
   (\<exists>pcri. fst (createPCRInfoLong 6 pack \<lparr>verbosity = 0, entries = []\<rparr> 2 (PcrMask 1 0 0x82)
                  (replicate 20 0)) = Inr pcri \<and>
      LocAtCreation pcri = 4 \<and> LocAtRelease pcri = 4 \<and>
      PCRsAtCreation pcri = \<lparr>Size = 3, Mask = PcrMask 1 0 0x82\<rparr> \<and>
      PCRsAtRelease pcri = \<lparr>Size = 3, Mask = PcrMask 1 0 0x82\<rparr> \<and>
      DigestAtCreation pcri = sha1_Sum ([0, 3, 1, 0, 0x82, 0, 0, 0, 0x14] @ replicate 20 0) \<and>
      DigestAtRelease pcri = sha1_Sum ([0, 3, 1, 0, 0x82, 0, 0, 0, 0x14] @ replicate 20 0)) \<and>
   fst (createPCRComposite pack \<lparr>verbosity = 0, entries = []\<rparr> (PcrMask 1 0 0x82) (replicate 19 0))
     = Inl PcrsNotMultiple \<and>
   fst (createPCRInfoLong 6 pack \<lparr>verbosity = 0, entries = []\<rparr> 2 (PcrMask 1 0 0x82)
          (replicate 19 0)) = Inl PcrsNotMultiple"
proof -
  have a: "fst (createPCRComposite pack \<lparr>verbosity = 0, entries = []\<rparr> (PcrMask 1 0 0x82)
                 (replicate 20 0))
             = Inr (sha1_Sum ([0, 3, 1, 0, 0x82, 0, 0, 0, 0x14] @ replicate 20 0))"
    by (rule composite_20_zero)
  have b: "fst (createPCRComposite pack \<lparr>verbosity = 0, entries = []\<rparr> (PcrMask 1 0 0x82)
                 (replicate 19 0)) = Inl PcrsNotMultiple"
    by (simp add: createPCRComposite_fst)
  show ?thesis
    using a b
      createPCRInfoLong_record
        [of pack "\<lparr>verbosity = 0, entries = []\<rparr>" "PcrMask 1 0 0x82" "replicate 20 0"
            "sha1_Sum ([0, 3, 1, 0, 0x82, 0, 0, 0, 0x14] @ replicate 20 0)" 6 2 PcrsNotMultiple]
      createPCRInfoLong_record
        [of pack "\<lparr>verbosity = 0, entries = []\<rparr>" "PcrMask 1 0 0x82" "replicate 19 0"
            "[]" 6 2 PcrsNotMultiple]
    by simp
qed

text \<open>
  Claim C10. For a locality of 8 or more \<open>createPCRInfoLong\<close> reports no error about the
  locality: when the digest step succeeds it returns a record, and both locations of the
  record are 0, since \<open>byte(1 << loc)\<close> keeps no bit.
\<close>

theorem createPCRInfoLong_locality_truncated:
  assumes "8 \<le> unat loc"
    and "fst (createPCRComposite packer g pmask pcrVals) = Inr d"
  shows "\<exists>pcri. fst (createPCRInfoLong tagPCRInfoLong packer g loc pmask pcrVals) = Inr pcri \<and>
           LocAtCreation pcri = 0 \<and> LocAtRelease pcri = 0"
proof -
  have "push_bit (unat loc) (1 :: byte) = 0"
    using assms(1) by (simp add: push_bit_eq_0_iff)
  with createPCRInfoLong_Inr [OF assms(2), of tagPCRInfoLong loc] show ?thesis
    by (simp del: push_bit_of_1)
qed

theorem createPCRInfoLong_locality_truncated_witness:
  "8 \<le> unat (8 :: byte) \<and>
   fst (createPCRComposite pack \<lparr>verbosity = 0, entries = []\<rparr> (PcrMask 1 0 0x82) (replicate 20 0))
     = Inr (sha1_Sum ([0, 3, 1, 0, 0x82, 0, 0, 0, 0x14] @ replicate 20 0)) \<and>
   (\<exists>pcri. fst (createPCRInfoLong 6 pack \<lparr>verbosity = 0, entries = []\<rparr> 8 (PcrMask 1 0 0x82)
                  (replicate 20 0)) = Inr pcri \<and>
      LocAtCreation pcri = 0 \<and> LocAtRelease pcri = 0)"
proof -
  have h: "8 \<le> unat (8 :: byte)" by simp
  have a: "fst (createPCRComposite pack \<lparr>verbosity = 0, entries = []\<rparr> (PcrMask 1 0 0x82)
                 (replicate 20 0))
             = Inr (sha1_Sum ([0, 3, 1, 0, 0x82, 0, 0, 0, 0x14] @ replicate 20 0))"
    by (rule composite_20_zero)
  show ?thesis
    using h a createPCRInfoLong_locality_truncated [OF h a, of 6] by blast
qed

section \<open>Building an info record from indices\<close>

lemma createPCRInfoLong_fst_indep:
  "fst (createPCRInfoLong tagPCRInfoLong packer g loc pmask pcrVals) =
   fst (createPCRInfoLong tagPCRInfoLong packer g' loc pmask pcrVals)"
proof (cases "fst (createPCRComposite packer g pmask pcrVals)")
  case (Inl e)
  moreover from Inl have "fst (createPCRComposite packer g' pmask pcrVals) = Inl e"
    using createPCRComposite_fst_indep [of packer g pmask pcrVals g'] by simp
  ultimately show ?thesis by (simp add: createPCRInfoLong_Inl)
next
  case (Inr d)
  moreover from Inr have "fst (createPCRComposite packer g' pmask pcrVals) = Inr d"
    using createPCRComposite_fst_indep [of packer g pmask pcrVals g'] by simp
  ultimately show ?thesis by (simp add: createPCRInfoLong_Inr del: push_bit_of_1)
qed

lemma newPCRInfoLong_fst:
  "fst (newPCRInfoLong tagPCRInfoLong packer fetch g loc pcrNums) =
     (case setPCR_each zero_mask pcrNums of
        Inl err \<Rightarrow> Inl err
      | Inr pmask \<Rightarrow>
          (case fetch pcrNums of
             Inl msg \<Rightarrow> Inl (FetchError msg)
           | Inr pcrVals \<Rightarrow> fst (createPCRInfoLong tagPCRInfoLong packer g loc pmask pcrVals)))"
proof (cases "setPCR_each zero_mask pcrNums")
  case (Inl err)
  then show ?thesis by (simp add: newPCRInfoLong_def)
next
  case m: (Inr pmask)
  show ?thesis
  proof (cases "fetch pcrNums")
    case (Inl msg)
    with m show ?thesis by (simp add: newPCRInfoLong_def Let_def)
  next
    case (Inr pcrVals)
    define g1 where "g1 = (if glog_V g 2 then glog_Info g (LogMask pmask) else g)"
    define g2 where "g2 = (if glog_V g1 2 then glog_Info g1 (LogPcrVals pcrVals) else g1)"
    have "newPCRInfoLong tagPCRInfoLong packer fetch g loc pcrNums =
            createPCRInfoLong tagPCRInfoLong packer g2 loc pmask pcrVals"
      using m Inr by (simp add: newPCRInfoLong_def Let_def g1_def g2_def)
    then show ?thesis
      using m Inr createPCRInfoLong_fst_indep [of tagPCRInfoLong packer g2 loc pmask pcrVals g]
      by simp
  qed
qed

text \<open>
  Claim C7. \<open>newPCRInfoLong\<close> returns no record when a step fails. With \<open>k\<close> the first
  out-of-range index it returns the error of \<open>setPCR\<close> for \<open>k\<close>, before anything is logged
  or fetched. With all indices in range and a failing \<open>FetchPCRValues\<close> it returns that
  failure. With the values fetched and a failing digest step it returns the error of that
  step. Conversely, a record is returned only if all indices are in range, the values were
  fetched and their digest computed, and the record holds that digest.
\<close>

theorem newPCRInfoLong_aborts:
  "((\<forall>v\<in>set good. 0 \<le> v \<and> v < 24) \<and> (k < 0 \<or> 24 \<le> k) \<longrightarrow>
      newPCRInfoLong tagPCRInfoLong packer fetch g loc (good @ k # rest)
        = (Inl (CantSetPCR k), g)) \<and>
   (setPCR_each zero_mask pcrNums = Inr pmask \<and> fetch pcrNums = Inl msg \<longrightarrow>
      fst (newPCRInfoLong tagPCRInfoLong packer fetch g loc pcrNums) = Inl (FetchError msg)) \<and>
   (setPCR_each zero_mask pcrNums = Inr pmask \<and> fetch pcrNums = Inr pcrVals \<and>
    fst (createPCRComposite packer g' pmask pcrVals) = Inl e \<longrightarrow>
      fst (newPCRInfoLong tagPCRInfoLong packer fetch g loc pcrNums) = Inl e) \<and>
   (fst (newPCRInfoLong tagPCRInfoLong packer fetch g loc pcrNums) = Inr pcri \<longrightarrow>
      (\<forall>v\<in>set pcrNums. 0 \<le> v \<and> v < 24) \<and>
      (\<exists>pmask pcrVals. setPCR_each zero_mask pcrNums = Inr pmask \<and>
         fetch pcrNums = Inr pcrVals \<and>
         fst (createPCRComposite packer g pmask pcrVals) = Inr (DigestAtCreation pcri) \<and>
         DigestAtRelease pcri = DigestAtCreation pcri))"
proof (intro conjI impI)
  assume "(\<forall>v\<in>set good. 0 \<le> v \<and> v < 24) \<and> (k < 0 \<or> 24 \<le> k)"
  then have "setPCR_each zero_mask (good @ k # rest) = Inl (CantSetPCR k)"
    by (simp add: setPCR_each_first_bad)
  then show "newPCRInfoLong tagPCRInfoLong packer fetch g loc (good @ k # rest)
               = (Inl (CantSetPCR k), g)"
    by (simp add: newPCRInfoLong_def)
next
  assume "setPCR_each zero_mask pcrNums = Inr pmask \<and> fetch pcrNums = Inl msg"
  then show "fst (newPCRInfoLong tagPCRInfoLong packer fetch g loc pcrNums) = Inl (FetchError msg)"
    by (simp add: newPCRInfoLong_fst)
next
  assume a: "setPCR_each zero_mask pcrNums = Inr pmask \<and> fetch pcrNums = Inr pcrVals \<and>
    fst (createPCRComposite packer g' pmask pcrVals) = Inl e"
  then have "fst (createPCRComposite packer g pmask pcrVals) = Inl e"
    using createPCRComposite_fst_indep [of packer g pmask pcrVals g'] by simp
  then have "fst (createPCRInfoLong tagPCRInfoLong packer g loc pmask pcrVals) = Inl e"
    by (rule createPCRInfoLong_Inl)
  with a show "fst (newPCRInfoLong tagPCRInfoLong packer fetch g loc pcrNums) = Inl e"
    by (simp add: newPCRInfoLong_fst)
next
  assume r: "fst (newPCRInfoLong tagPCRInfoLong packer fetch g loc pcrNums) = Inr pcri"
  then obtain pmask pcrVals where
    m: "setPCR_each zero_mask pcrNums = Inr pmask" and
    f: "fetch pcrNums = Inr pcrVals" and
    c: "fst (createPCRInfoLong tagPCRInfoLong packer g loc pmask pcrVals) = Inr pcri"
    by (auto simp add: newPCRInfoLong_fst split: sum.splits)
  from m show "\<forall>v\<in>set pcrNums. 0 \<le> v \<and> v < 24" by (rule setPCR_each_Inr_good)
  obtain d where d: "fst (createPCRComposite packer g pmask pcrVals) = Inr d"
    using c createPCRInfoLong_Inl [of packer g pmask pcrVals _ tagPCRInfoLong loc]
    by (cases "fst (createPCRComposite packer g pmask pcrVals)") auto
  from createPCRInfoLong_Inr [OF d, of tagPCRInfoLong loc] c
  have "DigestAtCreation pcri = d" "DigestAtRelease pcri = d" by auto
  with m f d show "\<exists>pmask pcrVals. setPCR_each zero_mask pcrNums = Inr pmask \<and>
         fetch pcrNums = Inr pcrVals \<and>
         fst (createPCRComposite packer g pmask pcrVals) = Inr (DigestAtCreation pcri) \<and>
         DigestAtRelease pcri = DigestAtCreation pcri"
    by auto
qed


theorem newPCRInfoLong_aborts_witness:
  "newPCRInfoLong 6 pack (\<lambda>ns. Inr (replicate (20 * length ns) 0))
       \<lparr>verbosity = 2, entries = []\<rparr> 2 ([0, 17] @ 24 # [23])
     = (Inl (CantSetPCR 24), \<lparr>verbosity = 2, entries = []\<rparr>) \<and>
   fst (newPCRInfoLong 6 pack (\<lambda>ns. Inl ''no device'')
          \<lparr>verbosity = 2, entries = []\<rparr> 2 [0, 17, 23])
     = Inl (FetchError ''no device'') \<and>
   fst (newPCRInfoLong 6 pack (\<lambda>ns. Inr (replicate (19 * length ns) 0))
          \<lparr>verbosity = 2, entries = []\<rparr> 2 [0, 17, 23])
     = Inl PcrsNotMultiple \<and>
   fst (newPCRInfoLong 6 pack (\<lambda>ns. Inr (replicate (20 * length ns) 0))
          \<lparr>verbosity = 2, entries = []\<rparr> 2 [0, 17, 23])
     = Inr \<lparr>Tag = 6, LocAtCreation = 4, LocAtRelease = 4,
            PCRsAtCreation = \<lparr>Size = 3, Mask = PcrMask 1 0 0x82\<rparr>,
            PCRsAtRelease = \<lparr>Size = 3, Mask = PcrMask 1 0 0x82\<rparr>,
            DigestAtCreation =
              sha1_Sum ([0, 3, 1, 0, 0x82, 0, 0, 0, 0x3C] @ replicate 60 0),
            DigestAtRelease =
              sha1_Sum ([0, 3, 1, 0, 0x82, 0, 0, 0, 0x3C] @ replicate 60 0)\<rparr> \<and>
   (\<exists>pmask pcrVals. setPCR_each zero_mask [0, 17, 23] = Inr pmask \<and>
      (Inr (replicate (20 * length [0, 17, 23 :: int]) 0) :: string + byte list) = Inr pcrVals \<and>
      fst (createPCRComposite pack \<lparr>verbosity = 2, entries = []\<rparr> pmask pcrVals)
        = Inr (sha1_Sum ([0, 3, 1, 0, 0x82, 0, 0, 0, 0x3C] @ replicate 60 0)))"
proof -
  define g where "g = \<lparr>verbosity = 2, entries = []\<rparr>"
  define fetch_ok :: fetcher where "fetch_ok = (\<lambda>ns. Inr (replicate (20 * length ns) 0))"
  define fetch_short :: fetcher where "fetch_short = (\<lambda>ns. Inr (replicate (19 * length ns) 0))"
  define fetch_fail :: fetcher where "fetch_fail = (\<lambda>ns. Inl ''no device'')"
  have m: "setPCR_each zero_mask [0, 17, 23] = Inr (PcrMask 1 0 0x82)"
    by (simp add: setPCR_def zero_mask_def)
  have c60: "fst (createPCRComposite pack g (PcrMask 1 0 0x82) (replicate 60 0)) =
               Inr (sha1_Sum ([0, 3, 1, 0, 0x82, 0, 0, 0, 0x3C] @ replicate 60 0))"
    by (simp add: createPCRComposite_fst pack_layout be32_bytes_def)
  have c57: "fst (createPCRComposite pack g (PcrMask 1 0 0x82) (replicate 57 0)) =
               Inl PcrsNotMultiple"
    by (simp add: createPCRComposite_fst)
  have r: "fst (newPCRInfoLong 6 pack fetch_ok g 2 [0, 17, 23])
     = Inr \<lparr>Tag = 6, LocAtCreation = 4, LocAtRelease = 4,
            PCRsAtCreation = \<lparr>Size = 3, Mask = PcrMask 1 0 0x82\<rparr>,
            PCRsAtRelease = \<lparr>Size = 3, Mask = PcrMask 1 0 0x82\<rparr>,
            DigestAtCreation =
              sha1_Sum ([0, 3, 1, 0, 0x82, 0, 0, 0, 0x3C] @ replicate 60 0),
            DigestAtRelease =
              sha1_Sum ([0, 3, 1, 0, 0x82, 0, 0, 0, 0x3C] @ replicate 60 0)\<rparr>"
    using createPCRInfoLong_Inr [OF c60, of 6 2]
    unfolding newPCRInfoLong_fst m fetch_ok_def by simp
  have "newPCRInfoLong 6 pack fetch_ok g 2 ([0, 17] @ 24 # [23]) = (Inl (CantSetPCR 24), g)"
    using newPCRInfoLong_aborts
      [where good = "[0, 17]" and k = 24 and rest = "[23]" and tagPCRInfoLong = 6
         and packer = pack and fetch = fetch_ok and g = g and loc = 2
         and pcrNums = "[0, 17, 23]"]
    by simp
  moreover have "fst (newPCRInfoLong 6 pack fetch_fail g 2 [0, 17, 23])
                   = Inl (FetchError ''no device'')"
    using m newPCRInfoLong_aborts
      [where good = "[]" and k = 24 and tagPCRInfoLong = 6
         and packer = pack and fetch = fetch_fail and g = g and loc = 2
         and pcrNums = "[0, 17, 23]" and pmask = "PcrMask 1 0 0x82" and msg = "''no device''"]
    by (simp add: fetch_fail_def)
  moreover have "fst (newPCRInfoLong 6 pack fetch_short g 2 [0, 17, 23]) = Inl PcrsNotMultiple"
    using m c57 newPCRInfoLong_aborts
      [where good = "[]" and k = 24 and tagPCRInfoLong = 6
         and packer = pack and fetch = fetch_short and g = g and loc = 2
         and pcrNums = "[0, 17, 23]" and pmask = "PcrMask 1 0 0x82"
         and pcrVals = "replicate 57 0" and g' = g and e = PcrsNotMultiple]
    by (simp add: fetch_short_def)
  moreover have "\<exists>pmask pcrVals. setPCR_each zero_mask [0, 17, 23] = Inr pmask \<and>
      fetch_ok [0, 17, 23] = Inr pcrVals \<and>
      fst (createPCRComposite pack g pmask pcrVals)
        = Inr (sha1_Sum ([0, 3, 1, 0, 0x82, 0, 0, 0, 0x3C] @ replicate 60 0))"
    using r newPCRInfoLong_aborts
      [where good = "[]" and k = 24 and tagPCRInfoLong = 6
         and packer = pack and fetch = fetch_ok and g = g and loc = 2
         and pcrNums = "[0, 17, 23]"
         and pcri = "\<lparr>Tag = 6, LocAtCreation = 4, LocAtRelease = 4,
            PCRsAtCreation = \<lparr>Size = 3, Mask = PcrMask 1 0 0x82\<rparr>,
            PCRsAtRelease = \<lparr>Size = 3, Mask = PcrMask 1 0 0x82\<rparr>,
            DigestAtCreation =
              sha1_Sum ([0, 3, 1, 0, 0x82, 0, 0, 0, 0x3C] @ replicate 60 0),
            DigestAtRelease =
              sha1_Sum ([0, 3, 1, 0, 0x82, 0, 0, 0, 0x3C] @ replicate 60 0)\<rparr>"]
    by simp
  ultimately show ?thesis
    using r unfolding g_def fetch_ok_def fetch_short_def fetch_fail_def by blast
qed

section \<open>A test vector for SHA-1\<close>

text \<open>
  The one-block message \<open>abc\<close> of FIPS 180: its padded block, the 80 words of the message
  schedule and the digest \<open>a9993e36 4706816a ba3e2571 7850c26c 9cd0d89d\<close>.
\<close>

lemma upt_16_80:
  "[16..<80] =
     [16, 17, 18, 19, 20, 21, 22, 23, 24, 25, 26, 27, 28, 29, 30, 31, 32, 33, 34, 35,
      36, 37, 38, 39, 40, 41, 42, 43, 44, 45, 46, 47, 48, 49, 50, 51, 52, 53, 54, 55,
      56, 57, 58, 59, 60, 61, 62, 63, 64, 65, 66, 67, 68, 69, 70, 71, 72, 73, 74, 75,
      76, 77, 78, 79]"
  by code_simp

lemma upt_0_80:
  "[0..<80] =
     [0, 1, 2, 3, 4, 5, 6, 7, 8, 9, 10, 11, 12, 13, 14, 15, 16, 17, 18, 19,
      20, 21, 22, 23, 24, 25, 26, 27, 28, 29, 30, 31, 32, 33, 34, 35, 36, 37, 38, 39,
      40, 41, 42, 43, 44, 45, 46, 47, 48, 49, 50, 51, 52, 53, 54, 55, 56, 57, 58, 59,
      60, 61, 62, 63, 64, 65, 66, 67, 68, 69, 70, 71, 72, 73, 74, 75, 76, 77, 78, 79]"
  by code_simp

lemma sha1_pad_abc:
  "sha1_pad [0x61, 0x62, 0x63] =
     [97, 98, 99, 128, 0, 0, 0, 0, 0, 0, 0, 0, 0, 0, 0, 0, 0, 0, 0, 0, 0, 0, 0,
      0, 0, 0, 0, 0, 0, 0, 0, 0, 0, 0, 0, 0, 0, 0, 0, 0, 0, 0, 0, 0, 0, 0, 0, 0,
      0, 0, 0, 0, 0, 0, 0, 0, 0, 0, 0, 0, 0, 0, 0, 24]"
  by code_simp

lemma sha1_words_abc:
  "map (\<lambda>i. be32_word (take 4 (drop (4 * i)
     [97, 98, 99, 128, 0, 0, 0, 0, 0, 0, 0, 0, 0, 0, 0, 0, 0, 0, 0, 0, 0, 0, 0,
      0, 0, 0, 0, 0, 0, 0, 0, 0, 0, 0, 0, 0, 0, 0, 0, 0, 0, 0, 0, 0, 0, 0, 0, 0,
      0, 0, 0, 0, 0, 0, 0, 0, 0, 0, 0, 0, 0, 0, 0, 24]))) [0..<16] =
     [1633837952, 0, 0, 0, 0, 0, 0, 0, 0, 0, 0, 0, 0, 0, 0, 24]"
  by code_simp

lemma sha1_schedule_abc:
  "sha1_schedule
     [97, 98, 99, 128, 0, 0, 0, 0, 0, 0, 0, 0, 0, 0, 0, 0, 0, 0, 0, 0, 0, 0, 0,
      0, 0, 0, 0, 0, 0, 0, 0, 0, 0, 0, 0, 0, 0, 0, 0, 0, 0, 0, 0, 0, 0, 0, 0, 0,
      0, 0, 0, 0, 0, 0, 0, 0, 0, 0, 0, 0, 0, 0, 0, 24] =
     [1633837952, 0, 0, 0, 0, 0, 0, 0, 0, 0, 0, 0, 0, 0, 0, 24, 3267675904, 0,
      48, 2240384513, 0, 96, 185801731, 48, 2240384705, 371603462, 0, 384,
      743206924, 240, 2477765895, 1486413896, 2392494594, 1536, 2972827888,
      371604422, 1321128990, 1650688161, 371603462, 6336, 3537975492, 3840,
      989548665, 2307785957, 3803855915, 24768, 87701453, 1950713159,
      3667138029, 641206806, 1650688929, 1321161950, 943043659, 62976,
      512018339, 2564836760, 1696405152, 1650822305, 1166361814, 1146637495,
      2074109465, 1669377698, 182801001, 1652246945, 2094292125, 983040,
      4216354106, 3966199272, 3124505570, 6340608, 976735493, 1166362356,
      3092880854, 940186150, 31465987, 3888919638, 3873835881, 16124416,
      1469443919, 2184054905]"
  unfolding sha1_schedule_def sha1_words_abc upt_16_80
  by (simp add: rotl_def)

lemma sha1_block_abc:
  "sha1_block
     [97, 98, 99, 128, 0, 0, 0, 0, 0, 0, 0, 0, 0, 0, 0, 0, 0, 0, 0, 0, 0, 0, 0,
      0, 0, 0, 0, 0, 0, 0, 0, 0, 0, 0, 0, 0, 0, 0, 0, 0, 0, 0, 0, 0, 0, 0, 0, 0,
      0, 0, 0, 0, 0, 0, 0, 0, 0, 0, 0, 0, 0, 0, 0, 24] sha1_init =
     (0xA9993E36, 0x4706816A, 0xBA3E2571, 0x7850C26C, 0x9CD0D89D)"
  unfolding sha1_block_def sha1_schedule_abc upt_0_80 sha1_init_def
  by (simp add: sha1_round_def sha1_f_def sha1_k_def rotl_def)

lemma sha1_Sum_abc:
  "sha1_Sum [0x61, 0x62, 0x63] =
     [0xA9, 0x99, 0x3E, 0x36, 0x47, 0x06, 0x81, 0x6A, 0xBA, 0x3E,
      0x25, 0x71, 0x78, 0x50, 0xC2, 0x6C, 0x9C, 0xD0, 0xD8, 0x9D]"
proof -
  have "[0..<length (sha1_pad [0x61, 0x62, 0x63]) div 64] = [0]"
    unfolding sha1_pad_abc by simp
  then show ?thesis
    by (simp add: sha1_Sum_def Let_def sha1_pad_abc sha1_block_abc be32_bytes_def
          del: upt_Suc)
qed

end
